theory Spec2Isabelle
  imports Complex_Main
begin

section \<open>JavaScript numbers\<close>

text \<open>
  The crater map is JavaScript; every numeric field of a crater record is a JavaScript
  number, an IEEE 754 binary64 value. A number is modelled as NaN, one of the two
  infinities, or a finite value carried as a real number. Every arithmetic operation
  rounds its exact result to the nearest binary64 value, ties to even, and overflows to
  an infinity; so does the conversion of a string to a number. The comparisons, the
  propagation of NaN and the behaviour at the infinities follow ECMAScript. The sign of
  zero is not part of the model.
\<close>

datatype jsnum = NaN | NInf | Fin real | PInf

subsection \<open>Rounding to binary64\<close>

definition round_even :: "real \<Rightarrow> int" where
  \<comment> \<open>The nearest integer, a tie going to the even one.\<close>
  "round_even y =
     (let f = \<lfloor>y\<rfloor>
      in if y - of_int f < 1 / 2 then f
         else if 1 / 2 < y - of_int f then f + 1
         else if even f then f else f + 1)"

definition binade :: "real \<Rightarrow> int" where
  \<comment> \<open>The binary exponent of a positive number, not below that of the smallest normal
      number: subnormal numbers share the exponent -1022.\<close>
  "binade x = max \<lfloor>log 2 x\<rfloor> (- 1022)"

definition ulp :: "real \<Rightarrow> real" where
  \<comment> \<open>The spacing of the binary64 values around \<open>x\<close>: 52 fraction bits.\<close>
  "ulp x = 2 powr (of_int (binade x) - 52)"

definition round_pos :: "real \<Rightarrow> real" where
  "round_pos x = of_int (round_even (x / ulp x)) * ulp x"

definition round64 :: "real \<Rightarrow> real" where
  \<comment> \<open>Round to nearest, ties to even, with the exponent unbounded above.\<close>
  "round64 x = (if x < 0 then - round_pos (- x) else round_pos x)"

definition overflow64 :: real where
  \<comment> \<open>A rounded magnitude of this size or more does not fit binary64.\<close>
  "overflow64 = 2 ^ 1024"

definition fin64 :: "real \<Rightarrow> jsnum" where
  \<comment> \<open>The binary64 result of an operation whose exact result is \<open>x\<close>; also the value of
      a numeric literal.\<close>
  "fin64 x =
     (let r = round64 x
      in if overflow64 \<le> r then PInf else if r \<le> - overflow64 then NInf else Fin r)"

subsection \<open>Operations\<close>

fun js_lt :: "jsnum \<Rightarrow> jsnum \<Rightarrow> bool" where
  "js_lt NaN _ = False"
| "js_lt _ NaN = False"
| "js_lt (Fin x) (Fin y) = (x < y)"
| "js_lt NInf NInf = False"
| "js_lt NInf _ = True"
| "js_lt _ NInf = False"
| "js_lt PInf _ = False"
| "js_lt _ PInf = True"

definition js_ge :: "jsnum \<Rightarrow> jsnum \<Rightarrow> bool" where
  \<comment> \<open>\<open>a >= b\<close>: false when either side is NaN, otherwise the negation of \<open>a < b\<close>.\<close>
  "js_ge a b = (a \<noteq> NaN \<and> b \<noteq> NaN \<and> \<not> js_lt a b)"

definition js_le :: "jsnum \<Rightarrow> jsnum \<Rightarrow> bool" where
  "js_le a b = js_ge b a"

fun js_neg :: "jsnum \<Rightarrow> jsnum" where
  "js_neg NaN = NaN"
| "js_neg NInf = PInf"
| "js_neg (Fin x) = Fin (- x)"
| "js_neg PInf = NInf"

fun js_add :: "jsnum \<Rightarrow> jsnum \<Rightarrow> jsnum" where
  "js_add NaN _ = NaN"
| "js_add _ NaN = NaN"
| "js_add (Fin x) (Fin y) = fin64 (x + y)"
| "js_add PInf NInf = NaN"
| "js_add NInf PInf = NaN"
| "js_add PInf _ = PInf"
| "js_add _ PInf = PInf"
| "js_add NInf _ = NInf"
| "js_add _ NInf = NInf"

definition js_sub :: "jsnum \<Rightarrow> jsnum \<Rightarrow> jsnum" where
  "js_sub a b = js_add a (js_neg b)"

fun js_mul :: "jsnum \<Rightarrow> jsnum \<Rightarrow> jsnum" where
  "js_mul NaN _ = NaN"
| "js_mul _ NaN = NaN"
| "js_mul (Fin x) (Fin y) = fin64 (x * y)"
| "js_mul (Fin x) PInf = (if x = 0 then NaN else if 0 < x then PInf else NInf)"
| "js_mul (Fin x) NInf = (if x = 0 then NaN else if 0 < x then NInf else PInf)"
| "js_mul PInf (Fin y) = (if y = 0 then NaN else if 0 < y then PInf else NInf)"
| "js_mul NInf (Fin y) = (if y = 0 then NaN else if 0 < y then NInf else PInf)"
| "js_mul PInf PInf = PInf"
| "js_mul NInf NInf = PInf"
| "js_mul PInf NInf = NInf"
| "js_mul NInf PInf = NInf"

fun Math_sqrt :: "jsnum \<Rightarrow> jsnum" where
  "Math_sqrt NaN = NaN"
| "Math_sqrt NInf = NaN"
| "Math_sqrt (Fin x) = (if x < 0 then NaN else fin64 (sqrt x))"
| "Math_sqrt PInf = PInf"

definition Math_max :: "jsnum \<Rightarrow> jsnum \<Rightarrow> jsnum" where
  \<comment> \<open>\<open>Math.max(a, b)\<close>: NaN when an argument is NaN, otherwise the larger one.\<close>
  "Math_max a b = (if a = NaN \<or> b = NaN then NaN else if js_lt a b then b else a)"

definition Math_min :: "jsnum \<Rightarrow> jsnum \<Rightarrow> jsnum" where
  "Math_min a b = (if a = NaN \<or> b = NaN then NaN else if js_lt b a then b else a)"

fun Math_ceil :: "jsnum \<Rightarrow> jsnum" where
  "Math_ceil NaN = NaN"
| "Math_ceil NInf = NInf"
| "Math_ceil (Fin x) = Fin (of_int \<lceil>x\<rceil>)"
| "Math_ceil PInf = PInf"

definition truthy :: "jsnum \<Rightarrow> bool" where
  \<comment> \<open>ToBoolean on a number: zero and NaN are falsy.\<close>
  "truthy a = (a \<noteq> NaN \<and> a \<noteq> Fin 0)"

fun to_double :: "jsnum \<Rightarrow> jsnum" where
  "to_double NaN = NaN"
| "to_double NInf = NInf"
| "to_double (Fin x) = fin64 x"
| "to_double PInf = PInf"

definition unary_plus :: "(string \<Rightarrow> jsnum) \<Rightarrow> string option \<Rightarrow> jsnum" where
  \<comment> \<open>\<open>+v\<close> for a value that is a string or \<open>undefined\<close> (\<open>None\<close>). The language's
      StringToNumber reads the string as a numeric literal and rounds its value to
      binary64; the reading of the literal is the parameter \<open>toNum\<close>, which gives the
      value the text denotes. \<open>+undefined\<close> is NaN.\<close>
  "unary_plus toNum v = (case v of None \<Rightarrow> NaN | Some s \<Rightarrow> to_double (toNum s))"

section \<open>Row Parser\<close>

text \<open>
  A raw row is the object d3.csv hands to the row function: a dictionary from column
  names to strings, a missing column reading as \<open>undefined\<close>. A crater record has
  the five fields both parsers build; \<open>survivedTime\<close> is \<open>None\<close> for \<open>null\<close>.
\<close>

type_synonym raw_row = "string \<rightharpoonup> string"

record crater =
  lon :: jsnum
  lat :: jsnum
  diameter :: jsnum
  created :: jsnum
  survivedTime :: "jsnum option"

definition string_truthy :: "string option \<Rightarrow> bool" where
  \<comment> \<open>ToBoolean on a string or \<open>undefined\<close>: only a non-empty string is truthy.\<close>
  "string_truthy v = (case v of None \<Rightarrow> False | Some s \<Rightarrow> s \<noteq> [])"

definition parseCraterRow_time :: "(string \<Rightarrow> jsnum) \<Rightarrow> raw_row \<Rightarrow> crater" where
  \<comment> \<open>\<open>parseCraterRow\<close> of src/script.js, the time-filter variant.\<close>
  "parseCraterRow_time toNum d =
     (let lon0 = unary_plus toNum (d ''Longitude'');
          lon1 = js_sub lon0 (Fin 180);
          lon2 = (if js_lt lon1 (Fin (- 180)) then js_add lon1 (Fin 360) else lon1)
      in \<lparr> lon = lon2,
           lat = unary_plus toNum (d ''Latitude''),
           diameter = unary_plus toNum (d ''diameter''),
           created = unary_plus toNum (d ''TimeStepCreated''),
           survivedTime =
             (if string_truthy (d ''SurvivedTimeStep'')
              then Some (unary_plus toNum (d ''SurvivedTimeStep'')) else None) \<rparr>)"

definition parseCraterRow_diam :: "(string \<Rightarrow> jsnum) \<Rightarrow> raw_row \<Rightarrow> crater" where
  \<comment> \<open>\<open>parseCraterRow\<close> of src/unnamed/part_000, the diameter-filter variant.\<close>
  "parseCraterRow_diam toNum d =
     \<lparr> lon = unary_plus toNum (d ''Longitude''),
       lat = unary_plus toNum (d ''Latitude''),
       diameter = unary_plus toNum (d ''diameter''),
       created = unary_plus toNum (d ''TimeStepCreated''),
       survivedTime = Some (unary_plus toNum (d ''SurvivedTimeStep'')) \<rparr>"

definition in_lon_range :: "jsnum \<Rightarrow> bool" where
  \<comment> \<open>The documented range of \<open>lon\<close>: -180 inclusive to 180 exclusive.\<close>
  "in_lon_range l = (js_ge l (Fin (- 180)) \<and> js_lt l (Fin 180))"

definition toNumber_sample :: "string \<Rightarrow> jsnum" where
  \<comment> \<open>The values denoted by the handful of literals the examples below use; used only
      to run the model on concrete rows.\<close>
  "toNumber_sample s =
     (if s = ''0'' then Fin 0 else if s = ''5'' then Fin 5 else if s = ''10'' then Fin 10
      else if s = ''16'' then Fin 16 else if s = ''190'' then Fin 190
      else if s = ''400'' then Fin 400
      else if s = ''-360.00000000000006'' then Fin (- 360.00000000000006) else NaN)"

definition example_row :: "string \<Rightarrow> raw_row" where
  \<comment> \<open>The example row of the specification, with the longitude text left open.\<close>
  "example_row l =
     [''Longitude'' \<mapsto> l, ''Latitude'' \<mapsto> ''10'', ''diameter'' \<mapsto> ''16'',
      ''TimeStepCreated'' \<mapsto> ''5'']"

section \<open>Radius Scale\<close>

definition craterRadius :: "jsnum \<Rightarrow> jsnum" where
  \<comment> \<open>\<open>craterRadius\<close>, the same in both files. The literal \<open>0.8\<close> is the binary64
      value nearest to eight tenths.\<close>
  "craterRadius d =
     (let minR = Fin 1; maxR = Fin 8
      in Math_max minR (Math_min maxR (js_mul (Math_sqrt d) (fin64 0.8))))"

definition clamp :: "real \<Rightarrow> real \<Rightarrow> real \<Rightarrow> real" where
  \<comment> \<open>The specification's \<open>clamp(x, lo, hi)\<close> on real numbers.\<close>
  "clamp x lo hi = (if x < lo then lo else if hi < x then hi else x)"

section \<open>Datasets and the DOM controls\<close>

text \<open>
  Crater records are JavaScript objects: the two datasets are arrays of references, and
  \<open>Array.prototype.includes\<close> compares references, not field values. So a dataset is
  a list of addresses and the heap maps an address to the record stored there.
\<close>

type_synonym ref = nat

type_synonym heap = "ref \<Rightarrow> crater"

datatype error = TypeError | RangeError

record checkbox =
  checked :: bool

record range_input =
  slider_max :: string
  slider_value :: string

record label_el =
  textContent :: string

text \<open>
  The four controls \<open>createCraterMap\<close> looks up by id for one prefix;
  \<open>None\<close> is the \<open>null\<close> that \<open>document.getElementById\<close> returns for an id
  that is not in the page.
\<close>

record controls =
  showSurvivedInput :: "checkbox option"
  showErasedInput :: "checkbox option"
  slider :: "range_input option"
  sliderLabel :: "label_el option"

record marker =
  datum :: ref
  attr_r :: jsnum
  attr_class :: string

text \<open>
  What one redraw leaves behind: the controls, the filtered sequence bound to the marker
  layer, and one circle per element of it, in the order of the data. The projection to
  screen coordinates and the tooltip handlers belong to the d3 library and are left out.
\<close>

record redraw =
  dom :: controls
  filtered :: "ref list"
  circles :: "marker list"

section \<open>Dataset Loader and Slider Setup\<close>

definition d3_max_step :: "jsnum option \<Rightarrow> jsnum \<Rightarrow> jsnum option" where
  \<comment> \<open>One round of the loop of d3-array's \<open>max\<close>:
      \<open>if (value != null && (max < value || (max === undefined && value >= value))) max = value\<close>.\<close>
  "d3_max_step mx v =
     (if (case mx of None \<Rightarrow> False | Some m \<Rightarrow> js_lt m v) \<or> (mx = None \<and> js_ge v v)
      then Some v else mx)"

definition d3_max :: "jsnum list \<Rightarrow> jsnum option" where
  \<comment> \<open>\<open>d3.max(values)\<close>; \<open>None\<close> is \<open>undefined\<close>.\<close>
  "d3_max vs = foldl d3_max_step None vs"

definition js_or :: "jsnum option \<Rightarrow> jsnum \<Rightarrow> jsnum" where
  \<comment> \<open>\<open>v || dflt\<close> for \<open>v\<close> a number or \<open>undefined\<close>.\<close>
  "js_or v dflt = (case v of None \<Rightarrow> dflt | Some a \<Rightarrow> if truthy a then a else dflt)"

definition roundedMax_time :: "heap \<Rightarrow> ref list \<Rightarrow> ref list \<Rightarrow> jsnum" where
  \<comment> \<open>src/script.js, lines 38 to 40.\<close>
  "roundedMax_time h survMare erasedMare =
     (let allTimes = map (\<lambda>d. created (h d)) (survMare @ erasedMare);
          maxTime = d3_max allTimes
      in Math_ceil (js_or maxTime (Fin 100)))"

definition roundedMax_diam :: "heap \<Rightarrow> ref list \<Rightarrow> ref list \<Rightarrow> jsnum" where
  \<comment> \<open>src/unnamed/part_000, lines 32 to 38.\<close>
  "roundedMax_diam h survMare erasedMare =
     (let allDiameters = map (\<lambda>d. diameter (h d)) (survMare @ erasedMare);
          maxDiameter = d3_max allDiameters
      in Math_ceil (js_or maxDiameter (Fin 50)))"

definition setupSlider_time :: "(jsnum \<Rightarrow> string) \<Rightarrow> controls \<Rightarrow> jsnum \<Rightarrow> controls" where
  \<comment> \<open>\<open>setupSlider\<close> of src/script.js. Assigning a number to \<open>slider.max\<close> stores its
      string form, the language's Number-to-string conversion \<open>toStr\<close>.\<close>
  "setupSlider_time toStr c maxVal =
     (let c1 = (case slider c of
                  Some sl \<Rightarrow> c\<lparr>slider := Some (sl\<lparr>slider_max := toStr maxVal, slider_value := ''0''\<rparr>)\<rparr>
                | None \<Rightarrow> c)
      in case sliderLabel c1 of
           Some lb \<Rightarrow> c1\<lparr>sliderLabel := Some (lb\<lparr>textContent := ''0''\<rparr>)\<rparr>
         | None \<Rightarrow> c1)"

definition setupSlider_diam :: "(jsnum \<Rightarrow> string) \<Rightarrow> controls \<Rightarrow> jsnum \<Rightarrow> controls" where
  \<comment> \<open>\<open>setupSlider\<close> of src/unnamed/part_000.\<close>
  "setupSlider_diam toStr c maxVal =
     (let c1 = (case slider c of
                  Some sl \<Rightarrow> c\<lparr>slider := Some (sl\<lparr>slider_max := toStr maxVal, slider_value := ''0''\<rparr>)\<rparr>
                | None \<Rightarrow> c)
      in case sliderLabel c1 of
           Some lb \<Rightarrow> c1\<lparr>sliderLabel := Some (lb\<lparr>textContent := ''0 km''\<rparr>)\<rparr>
         | None \<Rightarrow> c1)"

definition spec_max :: "jsnum option \<Rightarrow> jsnum list \<Rightarrow> bool" where
  \<comment> \<open>The specification's "maximum value across the sequence": \<open>spec_max (Some m) vs\<close>
      says that \<open>m\<close> is the greatest of the values that are numbers, and
      \<open>spec_max None vs\<close> that no value is a number (so also when there is no value).\<close>
  "spec_max r vs =
     (case r of
        None \<Rightarrow> (\<forall>v \<in> set vs. v = NaN)
      | Some m \<Rightarrow> m \<in> set vs \<and> m \<noteq> NaN \<and> (\<forall>v \<in> set vs. v \<noteq> NaN \<longrightarrow> js_le v m))"

section \<open>Update/Redraw Cycle\<close>

definition draw :: "heap \<Rightarrow> ref list \<Rightarrow> ref list \<Rightarrow> marker list" where
  \<comment> \<open>The attributes set on every circle of the joined selection, the same in both files.\<close>
  "draw h survivedData fl =
     map (\<lambda>d. \<lparr> datum = d,
                attr_r = craterRadius (diameter (h d)),
                attr_class = (if d \<in> set survivedData then ''crater-survived''
                              else ''crater-erased'') \<rparr>) fl"

definition push_spread :: "nat \<Rightarrow> 'a list \<Rightarrow> 'a list \<Rightarrow> error + 'a list" where
  \<comment> \<open>\<open>arr.push(...items)\<close>: the spread passes every element of \<open>items\<close> as an argument
      of one call. An engine accepts only so many arguments in a call and throws a
      RangeError beyond that; the bound differs between engines and is the parameter
      \<open>argLimit\<close>.\<close>
  "push_spread argLimit arr items =
     (if argLimit < length items then Inl RangeError else Inr (arr @ items))"

definition update_time ::
  "nat \<Rightarrow> (string \<Rightarrow> jsnum) \<Rightarrow> heap \<Rightarrow> controls \<Rightarrow> ref list \<Rightarrow> ref list \<Rightarrow> error + redraw" where
  \<comment> \<open>\<open>update\<close> of src/script.js: reading a property of \<open>null\<close> throws a TypeError, and
      the two \<open>filtered.push(...)\<close> calls spread the matching records.\<close>
  "update_time argLimit toNum h c survivedData erasedData =
     (case showSurvivedInput c of None \<Rightarrow> Inl TypeError | Some ss \<Rightarrow>
      case showErasedInput c of None \<Rightarrow> Inl TypeError | Some se \<Rightarrow>
      case slider c of None \<Rightarrow> Inl TypeError | Some sl \<Rightarrow>
        (let showSurvived = checked ss;
             showErased = checked se;
             minTime = unary_plus toNum (Some (slider_value sl));
             f0 = []
         in case (if showSurvived
                  then push_spread argLimit f0
                         (filter (\<lambda>d. js_ge (created (h d)) minTime) survivedData)
                  else Inr f0) of
              Inl e \<Rightarrow> Inl e
            | Inr f1 \<Rightarrow>
               (case (if showErased
                      then push_spread argLimit f1
                             (filter (\<lambda>d. js_ge (created (h d)) minTime) erasedData)
                      else Inr f1) of
                  Inl e \<Rightarrow> Inl e
                | Inr f2 \<Rightarrow> Inr \<lparr> dom = c, filtered = f2, circles = draw h survivedData f2 \<rparr>)))"

definition update_diam ::
  "(string \<Rightarrow> jsnum) \<Rightarrow> (jsnum \<Rightarrow> string) \<Rightarrow> heap \<Rightarrow> controls \<Rightarrow> ref list \<Rightarrow> ref list
     \<Rightarrow> error + redraw" where
  \<comment> \<open>\<open>update\<close> of src/unnamed/part_000: every control is tested before it is read,
      and \<open>concat\<close> takes the matching records as one array.\<close>
  "update_diam toNum toStr h c survivedData erasedData =
     (let showSurvived = (case showSurvivedInput c of Some ss \<Rightarrow> checked ss | None \<Rightarrow> True);
          showErased = (case showErasedInput c of Some se \<Rightarrow> checked se | None \<Rightarrow> True);
          minDiameter = (case slider c of
                           Some sl \<Rightarrow> unary_plus toNum (Some (slider_value sl))
                         | None \<Rightarrow> Fin 0);
          c1 = (case sliderLabel c of
                  Some lb \<Rightarrow> c\<lparr>sliderLabel := Some (lb\<lparr>textContent := toStr minDiameter @ '' km''\<rparr>)\<rparr>
                | None \<Rightarrow> c);
          f0 = [];
          f1 = (if showSurvived
                then f0 @ filter (\<lambda>d. js_ge (diameter (h d)) minDiameter) survivedData else f0);
          f2 = (if showErased
                then f1 @ filter (\<lambda>d. js_ge (diameter (h d)) minDiameter) erasedData else f1)
      in Inr \<lparr> dom = c1, filtered = f2, circles = draw h survivedData f2 \<rparr>)"

definition slider_input_time ::
  "nat \<Rightarrow> (string \<Rightarrow> jsnum) \<Rightarrow> heap \<Rightarrow> controls \<Rightarrow> ref list \<Rightarrow> ref list \<Rightarrow> error + redraw" where
  \<comment> \<open>The slider's input listener of src/script.js: copy the value to the label, redraw.\<close>
  "slider_input_time argLimit toNum h c survivedData erasedData =
     (case sliderLabel c of None \<Rightarrow> Inl TypeError | Some lb \<Rightarrow>
      case slider c of None \<Rightarrow> Inl TypeError | Some sl \<Rightarrow>
        update_time argLimit toNum h
          (c\<lparr>sliderLabel := Some (lb\<lparr>textContent := slider_value sl\<rparr>)\<rparr>)
          survivedData erasedData)"

definition createCraterMap_time ::
  "nat \<Rightarrow> (string \<Rightarrow> jsnum) \<Rightarrow> heap \<Rightarrow> controls \<Rightarrow> ref list \<Rightarrow> ref list \<Rightarrow> error + redraw" where
  \<comment> \<open>The control wiring of \<open>createCraterMap\<close> in src/script.js: three unguarded
      \<open>addEventListener\<close> calls, then the initial redraw.\<close>
  "createCraterMap_time argLimit toNum h c survivedData erasedData =
     (case showSurvivedInput c of None \<Rightarrow> Inl TypeError | Some _ \<Rightarrow>
      case showErasedInput c of None \<Rightarrow> Inl TypeError | Some _ \<Rightarrow>
      case slider c of None \<Rightarrow> Inl TypeError | Some _ \<Rightarrow>
        update_time argLimit toNum h c survivedData erasedData)"

definition createCraterMap_diam ::
  "(string \<Rightarrow> jsnum) \<Rightarrow> (jsnum \<Rightarrow> string) \<Rightarrow> heap \<Rightarrow> controls \<Rightarrow> ref list \<Rightarrow> ref list
     \<Rightarrow> error + redraw" where
  \<comment> \<open>The control wiring of \<open>createCraterMap\<close> in src/unnamed/part_000: listeners are
      attached only to the controls that exist, then the initial redraw.\<close>
  "createCraterMap_diam toNum toStr h c survivedData erasedData =
     update_diam toNum toStr h c survivedData erasedData"

section \<open>Example data\<close>

definition toString_sample :: "jsnum \<Rightarrow> string" where
  \<comment> \<open>Number-to-string on the values the examples use.\<close>
  "toString_sample a =
     (if a = Fin 0 then ''0'' else if a = Fin 5 then ''5'' else if a = Fin 10 then ''10''
      else ''NaN'')"

definition mk_crater :: "real \<Rightarrow> real \<Rightarrow> crater" where
  "mk_crater dm cr =
     \<lparr> lon = Fin 10, lat = Fin 10, diameter = Fin dm, created = Fin cr, survivedTime = None \<rparr>"

definition example_heap :: heap where
  \<comment> \<open>Five objects; the objects at 0 and 3 have the same field values.\<close>
  "example_heap r =
     (if r = 0 \<or> r = 3 then mk_crater 16 5
      else if r = 1 then mk_crater 4 20
      else if r = 2 then mk_crater 1 50
      else mk_crater 9 30)"

definition zero_heap :: heap where
  \<comment> \<open>Every object is a crater of diameter 0 created at timestep 0.\<close>
  "zero_heap r = mk_crater 0 0"

definition step_heap :: heap where
  \<comment> \<open>The object at 0 is small and early, every other object larger and later.\<close>
  "step_heap r = (if r = 0 then mk_crater 5 5 else mk_crater 16 16)"

definition all_controls :: "bool \<Rightarrow> bool \<Rightarrow> string \<Rightarrow> controls" where
  \<comment> \<open>A page with the four controls present.\<close>
  "all_controls ss se v =
     \<lparr> showSurvivedInput = Some \<lparr> checked = ss \<rparr>,
       showErasedInput = Some \<lparr> checked = se \<rparr>,
       slider = Some \<lparr> slider_max = ''100'', slider_value = v \<rparr>,
       sliderLabel = Some \<lparr> textContent = v \<rparr> \<rparr>"

definition no_controls :: controls where
  \<comment> \<open>A page with none of the four controls.\<close>
  "no_controls =
     \<lparr> showSurvivedInput = None, showErasedInput = None, slider = None, sliderLabel = None \<rparr>"

section \<open>User interaction\<close>

text \<open>
  The view state lives in the controls; the user changes it and the listeners call
  \<open>update\<close> afterwards. Clicking a checkbox flips its \<open>checked\<close>, dragging the
  slider replaces its \<open>value\<close>.
\<close>

definition toggle_survived :: "controls \<Rightarrow> controls" where
  "toggle_survived c =
     c\<lparr>showSurvivedInput := map_option (\<lambda>cb. cb\<lparr>checked := \<not> checked cb\<rparr>) (showSurvivedInput c)\<rparr>"

definition toggle_erased :: "controls \<Rightarrow> controls" where
  "toggle_erased c =
     c\<lparr>showErasedInput := map_option (\<lambda>cb. cb\<lparr>checked := \<not> checked cb\<rparr>) (showErasedInput c)\<rparr>"

definition drag_slider :: "string \<Rightarrow> controls \<Rightarrow> controls" where
  "drag_slider v c = c\<lparr>slider := map_option (\<lambda>sl. sl\<lparr>slider_value := v\<rparr>) (slider c)\<rparr>"

section \<open>Facts about rounding\<close>

lemma round_even_of_int: "round_even (of_int n) = n"
  by (simp add: round_even_def)

lemma round_even_ge_floor: "\<lfloor>y\<rfloor> \<le> round_even y"
  by (simp add: round_even_def Let_def)

lemma round_even_le_floor1: "round_even y \<le> \<lfloor>y\<rfloor> + 1"
  by (simp add: round_even_def Let_def)

lemma round_even_mono: "x \<le> y \<Longrightarrow> round_even x \<le> round_even y"
proof -
  assume xy: "x \<le> y"
  then have fl: "\<lfloor>x\<rfloor> \<le> \<lfloor>y\<rfloor>" by (rule floor_mono)
  show ?thesis
  proof (cases "\<lfloor>x\<rfloor> = \<lfloor>y\<rfloor>")
    case True
    then show ?thesis using xy by (auto simp: round_even_def Let_def)
  next
    case False
    with fl have "\<lfloor>x\<rfloor> + 1 \<le> \<lfloor>y\<rfloor>" by simp
    then show ?thesis
      using round_even_le_floor1 [of x] round_even_ge_floor [of y] by linarith
  qed
qed

lemma round_even_le: "y \<le> of_int n \<Longrightarrow> round_even y \<le> n"
  using round_even_mono [of y "of_int n"] by (simp add: round_even_of_int)

lemma round_even_ge: "of_int n \<le> y \<Longrightarrow> n \<le> round_even y"
  using round_even_mono [of "of_int n" y] by (simp add: round_even_of_int)

lemma ulp_pos: "0 < ulp x"
  by (simp add: ulp_def)

lemma binade_mono: "0 < x \<Longrightarrow> x \<le> y \<Longrightarrow> binade x \<le> binade y"
  unfolding binade_def by (intro max.mono floor_mono) simp_all

lemma binade_upper: "0 < x \<Longrightarrow> x < 2 powr (of_int (binade x) + 1)"
proof -
  assume x: "0 < x"
  have "log 2 x < of_int \<lfloor>log 2 x\<rfloor> + 1" by linarith
  also have "\<dots> \<le> of_int (binade x) + 1" by (simp add: binade_def)
  finally have "log 2 x < of_int (binade x) + 1" .
  then show ?thesis using x by (simp add: log_less_iff)
qed

lemma binade_lower: "0 < x \<Longrightarrow> - 1022 < binade x \<Longrightarrow> 2 powr (of_int (binade x)) \<le> x"
proof -
  assume x: "0 < x" and b: "- 1022 < binade x"
  then have "binade x = \<lfloor>log 2 x\<rfloor>" by (simp add: binade_def max_def split: if_splits)
  then have "of_int (binade x) \<le> log 2 x" by simp
  then show ?thesis using x by (simp add: le_log_iff)
qed

lemma binade_eq:
  assumes "0 < x" "2 powr (of_int e) \<le> x" "x < 2 powr (of_int e + 1)" "- 1022 \<le> e"
  shows "binade x = e"
proof -
  have "of_int e \<le> log 2 x" using assms(1,2) by (simp add: le_log_iff)
  moreover have "log 2 x < of_int e + 1" using assms(1,3) by (simp add: log_less_iff)
  ultimately have "\<lfloor>log 2 x\<rfloor> = e" by linarith
  then show ?thesis using assms(4) by (simp add: binade_def)
qed

lemma round_pos_upper: "0 < x \<Longrightarrow> round_pos x \<le> 2 powr (of_int (binade x) + 1)"
proof -
  assume x: "0 < x"
  have u: "2 powr (of_int (binade x) + 1) = of_int (2 ^ 53) * ulp x"
    by (simp add: ulp_def powr_diff powr_add)
  have "x / ulp x \<le> of_int (2 ^ 53)"
    using binade_upper [OF x] ulp_pos [of x] unfolding u by (simp add: field_simps)
  then have "round_even (x / ulp x) \<le> 2 ^ 53" by (rule round_even_le)
  then have "of_int (round_even (x / ulp x)) \<le> (of_int (2 ^ 53) :: real)" by linarith
  then show ?thesis unfolding u round_pos_def
    using ulp_pos [of x] by (simp only: mult_le_cancel_right_pos)
qed

lemma round_pos_lower:
  "0 < x \<Longrightarrow> - 1022 < binade x \<Longrightarrow> 2 powr (of_int (binade x)) \<le> round_pos x"
proof -
  assume x: "0 < x" and b: "- 1022 < binade x"
  have u: "2 powr (of_int (binade x)) = of_int (2 ^ 52) * ulp x"
    by (simp add: ulp_def powr_diff)
  have "of_int (2 ^ 52) \<le> x / ulp x"
    using binade_lower [OF x b] ulp_pos [of x] unfolding u by (simp add: field_simps)
  then have "2 ^ 52 \<le> round_even (x / ulp x)" by (rule round_even_ge)
  then have "(of_int (2 ^ 52) :: real) \<le> of_int (round_even (x / ulp x))" by linarith
  then show ?thesis unfolding u round_pos_def
    using ulp_pos [of x] by (simp only: mult_le_cancel_right_pos)
qed

lemma round_pos_0: "round_pos 0 = 0"
  by (simp add: round_pos_def round_even_def)

lemma round_pos_nonneg: "0 \<le> x \<Longrightarrow> 0 \<le> round_pos x"
proof -
  assume "0 \<le> x"
  then have "of_int 0 \<le> x / ulp x" using ulp_pos [of x] by simp
  then have "0 \<le> round_even (x / ulp x)" by (rule round_even_ge)
  then show ?thesis unfolding round_pos_def using ulp_pos [of x] by simp
qed

lemma round_pos_mono: "0 \<le> x \<Longrightarrow> x \<le> y \<Longrightarrow> round_pos x \<le> round_pos y"
proof -
  assume x0: "0 \<le> x" and xy: "x \<le> y"
  show ?thesis
  proof (cases "x = 0")
    case True
    then show ?thesis using round_pos_nonneg [of y] xy by (simp add: round_pos_0)
  next
    case False
    with x0 have x: "0 < x" by simp
    with xy have y: "0 < y" by simp
    have bm: "binade x \<le> binade y" using x xy by (rule binade_mono)
    show ?thesis
    proof (cases "binade x = binade y")
      case True
      then have u: "ulp x = ulp y" by (simp add: ulp_def)
      have "x / ulp y \<le> y / ulp y" using xy ulp_pos [of y] by (simp add: divide_right_mono)
      then have "round_even (x / ulp y) \<le> round_even (y / ulp y)" by (rule round_even_mono)
      then have "(of_int (round_even (x / ulp y)) :: real) \<le> of_int (round_even (y / ulp y))"
        by linarith
      then show ?thesis unfolding round_pos_def u
        using ulp_pos [of y] by (simp only: mult_le_cancel_right_pos)
    next
      case False
      with bm have lt: "binade x + 1 \<le> binade y" by simp
      have ylow: "- 1022 < binade y" using lt by (simp add: binade_def)
      have "round_pos x \<le> 2 powr (of_int (binade x) + 1)" using x by (rule round_pos_upper)
      also have "\<dots> \<le> 2 powr (of_int (binade y))"
      proof -
        have "(of_int (binade x) + 1 :: real) \<le> of_int (binade y)" using lt by linarith
        then show ?thesis by simp
      qed
      also have "\<dots> \<le> round_pos y" using y ylow by (rule round_pos_lower)
      finally show ?thesis .
    qed
  qed
qed

lemma round64_mono: "x \<le> y \<Longrightarrow> round64 x \<le> round64 y"
proof -
  assume xy: "x \<le> y"
  consider "y < 0" | "x < 0" "0 \<le> y" | "0 \<le> x" by linarith
  then show ?thesis
  proof cases
    case 1
    then have "round_pos (- y) \<le> round_pos (- x)" using xy by (intro round_pos_mono) simp_all
    then show ?thesis using 1 xy by (simp add: round64_def)
  next
    case 2
    then show ?thesis
      using round_pos_nonneg [of "- x"] round_pos_nonneg [of y] by (simp add: round64_def)
  next
    case 3
    then show ?thesis using xy round_pos_mono [of x y] by (simp add: round64_def)
  qed
qed

lemma round64_neg: "round64 (- x) = - round64 x"
  by (cases "x = 0") (auto simp: round64_def round_pos_0)

lemma round_pos_fix:
  assumes "0 < x" "binade x = e" "x = of_int n * 2 powr (of_int e - 52)"
  shows "round_pos x = x"
proof -
  have u: "ulp x = 2 powr (of_int e - 52)" using assms(2) by (simp add: ulp_def)
  have "x / ulp x = of_int n" unfolding u using assms(3) by simp
  then show ?thesis unfolding round_pos_def using assms(3) u by (simp add: round_even_of_int)
qed

lemma round_pos_adjacent:
  assumes "0 < w" "binade w = e"
    and "of_int n * 2 powr (of_int e - 52) \<le> w" "w \<le> of_int (n + 1) * 2 powr (of_int e - 52)"
  shows "round_pos w = of_int n * 2 powr (of_int e - 52)
       \<or> round_pos w = of_int (n + 1) * 2 powr (of_int e - 52)"
proof -
  have u: "ulp w = 2 powr (of_int e - 52)" using assms(2) by (simp add: ulp_def)
  have up: "0 < ulp w" by (rule ulp_pos)
  have "of_int n \<le> w / ulp w" using assms(3) up unfolding u [symmetric] by (simp add: field_simps)
  then have 1: "n \<le> round_even (w / ulp w)" by (rule round_even_ge)
  have "w / ulp w \<le> of_int (n + 1)" using assms(4) up unfolding u [symmetric] by (simp add: field_simps)
  then have 2: "round_even (w / ulp w) \<le> n + 1" by (rule round_even_le)
  from 1 2 have "round_even (w / ulp w) = n \<or> round_even (w / ulp w) = n + 1" by linarith
  then show ?thesis unfolding round_pos_def u by auto
qed


lemma round_pos_of_int:
  assumes "0 < n" "n < 2 ^ 53"
  shows "round_pos (of_int n) = of_int n"
proof -
  let ?x = "of_int n :: real"
  have x: "0 < ?x" using assms(1) by simp
  have x1: "1 \<le> ?x" using assms(1) by simp
  have "0 \<le> log 2 ?x" using x1 by simp
  then have e0: "0 \<le> binade ?x" by (simp add: binade_def)
  have "?x < 2 ^ 53" using assms(2) by (metis of_int_less_iff of_int_numeral of_int_power)
  then have "?x < 2 powr 53" by simp
  then have "log 2 ?x < 53" using x by (simp add: log_less_iff)
  then have e52: "binade ?x \<le> 52" by (simp add: binade_def floor_le_iff)
  define k where "k = nat (52 - binade ?x)"
  have k: "of_int (binade ?x) - 52 = - real k" using e52 by (simp add: k_def)
  have u: "(2::real) powr (of_int (binade ?x) - 52) = 1 / 2 ^ k"
    unfolding k by (simp add: powr_minus powr_realpow inverse_eq_divide)
  have eq: "?x = of_int (n * 2 ^ k) * 2 powr (of_int (binade ?x) - 52)"
    unfolding u by simp
  show ?thesis by (rule round_pos_fix [OF x refl eq])
qed

lemma round64_of_int:
  assumes "\<bar>n\<bar> < 2 ^ 53"
  shows "round64 (of_int n) = of_int n"
proof -
  consider "n = 0" | "0 < n" | "n < 0" by linarith
  then show ?thesis
  proof cases
    case 1
    then show ?thesis by (simp add: round64_def round_pos_0)
  next
    case 2
    then show ?thesis using assms round_pos_of_int [of n] by (simp add: round64_def)
  next
    case 3
    then have "round_pos (of_int (- n)) = of_int (- n)" using assms by (intro round_pos_of_int) simp_all
    then show ?thesis using 3 by (simp add: round64_def)
  qed
qed

lemma round64_numeral [simp]:
  "(numeral n :: int) < 2 ^ 53 \<Longrightarrow> round64 (numeral n) = numeral n"
  using round64_of_int [of "numeral n"] by simp

lemma round64_zero [simp]: "round64 0 = 0"
  by (simp add: round64_def round_pos_0)

lemma round64_one [simp]: "round64 1 = 1"
  using round64_of_int [of 1] by simp

lemma round64_neg_numeral [simp]:
  "(numeral n :: int) < 2 ^ 53 \<Longrightarrow> round64 (- numeral n) = - numeral n"
  by (simp add: round64_neg)

lemma round64_half: "round64 (1 / 2) = 1 / 2"
proof -
  have b: "binade (1 / 2) = - 1"
    by (rule binade_eq) (simp_all add: powr_minus)
  have "round_pos (1 / 2) = 1 / 2"
    by (rule round_pos_fix [where e = "- 1" and n = "2 ^ 52"]) (simp_all add: b powr_minus)
  then show ?thesis by (simp add: round64_def)
qed

lemma binade_eq_num:
  assumes "2 ^ k \<le> x" "x < 2 ^ Suc k"
  shows "binade x = int k"
proof -
  have "(0::real) < 2 ^ k" by simp
  with assms(1) have x: "0 < x" by linarith
  show ?thesis
  proof (rule binade_eq [OF x])
    show "2 powr real_of_int (int k) \<le> x" using assms(1) by (simp add: powr_realpow)
    show "x < 2 powr (real_of_int (int k) + 1)"
      using assms(2) by (simp add: powr_add powr_realpow)
  qed simp
qed

lemma ulp7: "(2::real) powr (of_int 7 - 52) = 1 / 2 ^ 45"
  by (simp add: powr_minus)

lemma ulp8: "(2::real) powr (of_int 8 - 52) = 1 / 2 ^ 44"
  by (simp add: powr_minus)


lemma binade7: "128 \<le> x \<Longrightarrow> x < 256 \<Longrightarrow> binade x = 7"
  using binade_eq_num [of 7 x] by simp

lemma binade8: "256 \<le> x \<Longrightarrow> x < 512 \<Longrightarrow> binade x = 8"
  using binade_eq_num [of 8 x] by simp

lemma binade9: "512 \<le> x \<Longrightarrow> x < 1024 \<Longrightarrow> binade x = 9"
  using binade_eq_num [of 9 x] by simp

lemma round_pos_grid7: "round_pos (of_int n / 2 ^ 45) = of_int n / 2 ^ 45"
  if "128 \<le> of_int n / (2 ^ 45 :: real)" "of_int n / (2 ^ 45 :: real) < 256"
proof (rule round_pos_fix [where e = 7 and n = n])
  show "0 < real_of_int n / 2 ^ 45" using that by linarith
  show "binade (real_of_int n / 2 ^ 45) = 7" using that by (rule binade7)
  show "real_of_int n / 2 ^ 45 = real_of_int n * 2 powr (real_of_int 7 - 52)"
    unfolding ulp7 by simp
qed

lemma round_pos_grid8: "round_pos (of_int n / 2 ^ 44) = of_int n / 2 ^ 44"
  if "256 \<le> of_int n / (2 ^ 44 :: real)" "of_int n / (2 ^ 44 :: real) < 512"
proof (rule round_pos_fix [where e = 8 and n = n])
  show "0 < real_of_int n / 2 ^ 44" using that by linarith
  show "binade (real_of_int n / 2 ^ 44) = 8" using that by (rule binade8)
  show "real_of_int n / 2 ^ 44 = real_of_int n * 2 powr (real_of_int 8 - 52)"
    unfolding ulp8 by simp
qed

lemma pred_360: "round64 (360 - 1 / 2 ^ 44) = 360 - 1 / 2 ^ 44"
  using round_pos_grid8 [of "360 * 2 ^ 44 - 1"] by (simp add: field_simps round64_def)

lemma below_180a: "round64 (180 - 1 / 2 ^ 44) = 180 - 1 / 2 ^ 44"
  using round_pos_grid7 [of "180 * 2 ^ 45 - 2"] by (simp add: field_simps round64_def)

lemma below_180b: "round64 (180 - 1 / 2 ^ 45) = 180 - 1 / 2 ^ 45"
  using round_pos_grid7 [of "180 * 2 ^ 45 - 1"] by (simp add: field_simps round64_def)

lemma above_180: "round64 (- 180 - 1 / 2 ^ 45) = - 180 - 1 / 2 ^ 45"
proof -
  have "round_pos (180 + 1 / 2 ^ 45) = 180 + 1 / 2 ^ 45"
    using round_pos_grid7 [of "180 * 2 ^ 45 + 1"] by (simp add: field_simps)
  then have "round64 (180 + 1 / 2 ^ 45) = 180 + 1 / 2 ^ 45" by (simp add: round64_def)
  then have "round64 (- (180 + 1 / 2 ^ 45)) = - (180 + 1 / 2 ^ 45)" by (simp only: round64_neg)
  then show ?thesis by simp
qed

lemma round64_m180: "round64 (- 180) = - 180" and round64_m540: "round64 (- 540) = - 540"
  by (simp_all add: round64_neg)

text \<open>No binary64 value lies strictly between 360 - 2^-44 and 360.\<close>

lemma double_below_360:
  assumes "round64 w < 360"
  shows "round64 w \<le> 360 - 1 / 2 ^ 44"
proof -
  consider "w \<le> 360 - 1 / 2 ^ 44" | "360 \<le> w" | "360 - 1 / 2 ^ 44 < w" "w < 360" by linarith
  then show ?thesis
  proof cases
    case 1
    then have "round64 w \<le> round64 (360 - 1 / 2 ^ 44)" by (rule round64_mono)
    also have "\<dots> = 360 - 1 / 2 ^ 44" by (rule pred_360)
    finally show ?thesis .
  next
    case 2
    then have "round64 360 \<le> round64 w" by (rule round64_mono)
    with assms show ?thesis by simp
  next
    case 3
    have w: "0 < w" using 3 by simp
    have b: "binade w = 8" using 3 by (intro binade8) simp_all
    have "round_pos w = of_int (360 * 2 ^ 44 - 1) * 2 powr (of_int 8 - 52)
        \<or> round_pos w = of_int (360 * 2 ^ 44 - 1 + 1) * 2 powr (of_int 8 - 52)"
      using 3 unfolding ulp8 by (intro round_pos_adjacent [OF w b, unfolded ulp8]) (simp_all add: field_simps)
    then have "round_pos w = 360 - 1 / 2 ^ 44 \<or> round_pos w = 360"
      unfolding ulp8 by (simp add: field_simps)
    moreover have "round64 w = round_pos w" using w by (simp add: round64_def)
    ultimately show ?thesis using assms by auto
  qed
qed

text \<open>No binary64 value lies strictly between -180 - 2^-45 and -180.\<close>

lemma double_below_m180:
  assumes "round64 z < - 180"
  shows "round64 z \<le> - 180 - 1 / 2 ^ 45"
proof -
  consider "z \<le> - 180 - 1 / 2 ^ 45" | "- 180 \<le> z" | "- 180 - 1 / 2 ^ 45 < z" "z < - 180"
    by linarith
  then show ?thesis
  proof cases
    case 1
    then have "round64 z \<le> round64 (- 180 - 1 / 2 ^ 45)" by (rule round64_mono)
    also have "\<dots> = - 180 - 1 / 2 ^ 45" by (rule above_180)
    finally show ?thesis .
  next
    case 2
    then have "round64 (- 180) \<le> round64 z" by (rule round64_mono)
    with assms show ?thesis by (simp only: round64_m180)
  next
    case 3
    have w: "0 < - z" using 3 by simp
    have b: "binade (- z) = 7" using 3 by (intro binade7) simp_all
    have "round_pos (- z) = of_int (180 * 2 ^ 45) * 2 powr (of_int 7 - 52)
        \<or> round_pos (- z) = of_int (180 * 2 ^ 45 + 1) * 2 powr (of_int 7 - 52)"
      using 3 unfolding ulp7 by (intro round_pos_adjacent [OF w b, unfolded ulp7]) (simp_all add: field_simps)
    then have "round_pos (- z) = 180 \<or> round_pos (- z) = 180 + 1 / 2 ^ 45"
      unfolding ulp7 by (simp add: field_simps)
    moreover have "round64 z = - round_pos (- z)" using 3 by (simp add: round64_def)
    ultimately show ?thesis using assms by auto
  qed
qed

text \<open>The longitude wrap on binary64 values.\<close>

lemma wrap_first:
  assumes "x = round64 w" "- 360 \<le> x" "x < 360"
  shows "- 540 \<le> round64 (x - 180) \<and> round64 (x - 180) < 180"
proof -
  have "x \<le> 360 - 1 / 2 ^ 44" using assms(1,3) double_below_360 by simp
  then have "round64 (x - 180) \<le> round64 (180 - 1 / 2 ^ 44)" by (intro round64_mono) simp
  also have "\<dots> = 180 - 1 / 2 ^ 44" by (rule below_180a)
  finally have up: "round64 (x - 180) < 180" by simp
  have "round64 (- 540) \<le> round64 (x - 180)" using assms(2) by (intro round64_mono) simp
  then show ?thesis using up by (simp only: round64_m540)
qed

lemma wrap_second:
  assumes "r = round64 z" "- 540 \<le> r" "r < - 180"
  shows "- 180 \<le> round64 (r + 360) \<and> round64 (r + 360) < 180"
proof -
  have "r \<le> - 180 - 1 / 2 ^ 45" using assms(1,3) double_below_m180 by simp
  then have "round64 (r + 360) \<le> round64 (180 - 1 / 2 ^ 45)" by (intro round64_mono) simp
  also have "\<dots> = 180 - 1 / 2 ^ 45" by (rule below_180b)
  finally have up: "round64 (r + 360) < 180" by simp
  have "round64 (- 180) \<le> round64 (r + 360)" using assms(2) by (intro round64_mono) simp
  then show ?thesis using up by (simp only: round64_m180)
qed



section \<open>Facts about the number model\<close>

lemma js_ge_Fin: "js_ge (Fin x) (Fin y) = (y \<le> x)"
  by (auto simp: js_ge_def)

lemma js_le_Fin: "js_le (Fin x) (Fin y) = (x \<le> y)"
  by (simp add: js_le_def js_ge_Fin)

lemma js_ge_NaN: "js_ge NaN b = False" "js_ge a NaN = False"
  by (simp_all add: js_ge_def)

lemma js_ge_trans: "js_ge a b \<Longrightarrow> js_ge b c \<Longrightarrow> js_ge a c"
  by (cases a; cases b; cases c) (auto simp: js_ge_def)

lemma js_ge_refl: "a \<noteq> NaN \<Longrightarrow> js_ge a a"
  by (cases a) (auto simp: js_ge_def)

lemma js_le_antisym: "js_le a b \<Longrightarrow> js_le b a \<Longrightarrow> a = b"
  by (cases a; cases b) (auto simp: js_le_def js_ge_def)

lemma js_lt_imp_le: "js_lt a b \<Longrightarrow> js_le a b"
  by (cases a; cases b) (auto simp: js_le_def js_ge_def)

lemma not_js_lt_imp_ge: "a \<noteq> NaN \<Longrightarrow> b \<noteq> NaN \<Longrightarrow> \<not> js_lt a b \<Longrightarrow> js_le b a"
  by (simp add: js_le_def js_ge_def)

lemma js_lt_not_NaN: "js_lt a b \<Longrightarrow> a \<noteq> NaN \<and> b \<noteq> NaN"
  by (cases a; cases b) auto

lemma overflow64_big: "2 ^ 53 \<le> overflow64"
  unfolding overflow64_def by (rule power_increasing) simp_all

lemma overflow64_gt: "1024 < overflow64"
  using overflow64_big by simp

lemma fin64_Fin:
  "- overflow64 < round64 x \<Longrightarrow> round64 x < overflow64 \<Longrightarrow> fin64 x = Fin (round64 x)"
  by (simp add: fin64_def Let_def)

lemma fin64_cases:
  obtains "fin64 x = PInf" "overflow64 \<le> round64 x"
  | "fin64 x = NInf" "round64 x \<le> - overflow64"
  | "fin64 x = Fin (round64 x)" "- overflow64 < round64 x" "round64 x < overflow64"
  using overflow64_gt by (cases "overflow64 \<le> round64 x"; cases "round64 x \<le> - overflow64")
    (auto simp: fin64_def Let_def)

lemma fin64_numeral [simp]:
  "(numeral n :: int) < 2 ^ 53 \<Longrightarrow> fin64 (numeral n) = Fin (numeral n)"
proof -
  assume n: "(numeral n :: int) < 2 ^ 53"
  then have "real_of_int (numeral n) < real_of_int (2 ^ 53)" by (simp only: of_int_less_iff)
  then have "(numeral n :: real) < 2 ^ 53" by simp
  with overflow64_big have "(numeral n :: real) < overflow64" by linarith
  moreover have "(0::real) < numeral n" by simp
  then have "- overflow64 < (numeral n :: real)" using overflow64_gt by linarith
  ultimately show ?thesis using n by (simp add: fin64_Fin)
qed

lemma fin64_neg_numeral [simp]:
  "(numeral n :: int) < 2 ^ 53 \<Longrightarrow> fin64 (- numeral n) = Fin (- numeral n)"
proof -
  assume n: "(numeral n :: int) < 2 ^ 53"
  then have "real_of_int (numeral n) < real_of_int (2 ^ 53)" by (simp only: of_int_less_iff)
  then have "(numeral n :: real) < 2 ^ 53" by simp
  with overflow64_big have "(numeral n :: real) < overflow64" by linarith
  moreover have "(0::real) < numeral n" by simp
  then have "- overflow64 < (numeral n :: real)" using overflow64_gt by linarith
  ultimately show ?thesis using n by (simp add: fin64_Fin)
qed

lemma fin64_zero [simp]: "fin64 0 = Fin 0"
  using overflow64_gt by (simp add: fin64_Fin)

lemma fin64_one [simp]: "fin64 1 = Fin 1"
  using overflow64_gt by (simp add: fin64_Fin)

lemma unary_plus_Fin: "unary_plus toNum v = Fin x \<Longrightarrow> \<exists>w. x = round64 w"
proof -
  assume a: "unary_plus toNum v = Fin x"
  then obtain s where s: "v = Some s" "to_double (toNum s) = Fin x"
    by (cases v) (auto simp: unary_plus_def)
  then obtain y where "toNum s = Fin y" "fin64 y = Fin x" by (cases "toNum s") auto
  then show ?thesis by (cases y rule: fin64_cases) auto
qed

section \<open>Row Parser: the longitude\<close>

lemma lon_time:
  "lon (parseCraterRow_time toNum d) =
     (if js_lt (js_sub (unary_plus toNum (d ''Longitude'')) (Fin 180)) (Fin (- 180))
      then js_add (js_sub (unary_plus toNum (d ''Longitude'')) (Fin 180)) (Fin 360)
      else js_sub (unary_plus toNum (d ''Longitude'')) (Fin 180))"
  by (simp add: parseCraterRow_time_def Let_def)

lemma js_sub_180: "js_sub (Fin x) (Fin 180) = fin64 (x - 180)"
  by (simp add: js_sub_def)

text \<open>The wrap on a binary64 longitude between -360 and 360.\<close>

lemma wrap_in_range:
  assumes "x = round64 w" "- 360 \<le> x" "x < 360"
  shows "in_lon_range
           (if js_lt (js_sub (Fin x) (Fin 180)) (Fin (- 180))
            then js_add (js_sub (Fin x) (Fin 180)) (Fin 360)
            else js_sub (Fin x) (Fin 180))"
proof -
  let ?r = "round64 (x - 180)"
  have r: "- 540 \<le> ?r \<and> ?r < 180" using assms by (rule wrap_first)
  then have s: "js_sub (Fin x) (Fin 180) = Fin ?r"
    unfolding js_sub_180 using overflow64_gt by (intro fin64_Fin) linarith+
  show ?thesis
  proof (cases "?r < - 180")
    case True
    have q: "- 180 \<le> round64 (?r + 360) \<and> round64 (?r + 360) < 180"
      using refl r True by (intro wrap_second) simp_all
    then have "js_add (Fin ?r) (Fin 360) = Fin (round64 (?r + 360))"
      using overflow64_gt by (simp add: fin64_Fin)
    then show ?thesis using True q by (simp add: s in_lon_range_def js_ge_Fin)
  next
    case False
    then show ?thesis using r by (simp add: s in_lon_range_def js_ge_Fin)
  qed
qed



lemma sample_190:
  "unary_plus toNumber_sample (example_row ''190'' ''Longitude'') = Fin 190"
  by (simp add: unary_plus_def example_row_def toNumber_sample_def)

lemma sample_400:
  "unary_plus toNumber_sample (example_row ''400'' ''Longitude'') = Fin 400"
  by (simp add: unary_plus_def example_row_def toNumber_sample_def)



text \<open>
  Claim C1, as amended. The time-filter parser sets \<open>lon\<close> to the raw longitude minus
  180, plus 360 if that difference is below -180; the result lies in [-180, 180) whenever
  the raw longitude \<open>L\<close> satisfies -360 <= L < 360. The diameter-filter parser applies no
  transform: its \<open>lon\<close> is the raw longitude.
\<close>

theorem parseCraterRow_lon:
  "lon (parseCraterRow_time toNum d) =
     (if js_lt (js_sub (unary_plus toNum (d ''Longitude'')) (Fin 180)) (Fin (- 180))
      then js_add (js_sub (unary_plus toNum (d ''Longitude'')) (Fin 180)) (Fin 360)
      else js_sub (unary_plus toNum (d ''Longitude'')) (Fin 180))
   \<and> (js_ge (unary_plus toNum (d ''Longitude'')) (Fin (- 360))
        \<and> js_lt (unary_plus toNum (d ''Longitude'')) (Fin 360)
      \<longrightarrow> in_lon_range (lon (parseCraterRow_time toNum d)))
   \<and> lon (parseCraterRow_diam toNum d) = unary_plus toNum (d ''Longitude'')"
proof (intro conjI impI)
  show "lon (parseCraterRow_time toNum d) =
     (if js_lt (js_sub (unary_plus toNum (d ''Longitude'')) (Fin 180)) (Fin (- 180))
      then js_add (js_sub (unary_plus toNum (d ''Longitude'')) (Fin 180)) (Fin 360)
      else js_sub (unary_plus toNum (d ''Longitude'')) (Fin 180))"
    by (rule lon_time)
  show "lon (parseCraterRow_diam toNum d) = unary_plus toNum (d ''Longitude'')"
    by (simp add: parseCraterRow_diam_def)
  assume h: "js_ge (unary_plus toNum (d ''Longitude'')) (Fin (- 360))
             \<and> js_lt (unary_plus toNum (d ''Longitude'')) (Fin 360)"
  then obtain x where L: "unary_plus toNum (d ''Longitude'') = Fin x"
    by (cases "unary_plus toNum (d ''Longitude'')") (auto simp: js_ge_def)
  then obtain w where w: "x = round64 w" using unary_plus_Fin by blast
  from h L have "- 360 \<le> x" "x < 360" by (simp_all add: js_ge_Fin)
  with w show "in_lon_range (lon (parseCraterRow_time toNum d))"
    unfolding lon_time L by (rule wrap_in_range)
qed

theorem parseCraterRow_lon_witness:
  "js_ge (unary_plus toNumber_sample (example_row ''190'' ''Longitude'')) (Fin (- 360))
   \<and> js_lt (unary_plus toNumber_sample (example_row ''190'' ''Longitude'')) (Fin 360)
   \<and> in_lon_range (lon (parseCraterRow_time toNumber_sample (example_row ''190'')))
   \<and> lon (parseCraterRow_diam toNumber_sample (example_row ''190'')) = Fin 190"
proof -
  have h: "js_ge (unary_plus toNumber_sample (example_row ''190'' ''Longitude'')) (Fin (- 360))
           \<and> js_lt (unary_plus toNumber_sample (example_row ''190'' ''Longitude'')) (Fin 360)"
    by (simp add: sample_190 js_ge_Fin)
  from parseCraterRow_lon [of toNumber_sample "example_row ''190''"] h
  have r: "in_lon_range (lon (parseCraterRow_time toNumber_sample (example_row ''190'')))"
    by blast
  from parseCraterRow_lon [of toNumber_sample "example_row ''190''"]
  have q: "lon (parseCraterRow_diam toNumber_sample (example_row ''190'')) =
             unary_plus toNumber_sample (example_row ''190'' ''Longitude'')"
    by blast
  from h r q [unfolded sample_190] show ?thesis by blast
qed

text \<open>
  The claim as stated fails twice: a raw longitude of 400 leaves the time-filter parser
  as 220, and the diameter-filter parser leaves 190 as it is.
\<close>

theorem parseCraterRow_lon_counterexample:
  "\<not> in_lon_range (lon (parseCraterRow_time toNumber_sample (example_row ''400'')))
   \<and> \<not> in_lon_range (lon (parseCraterRow_diam toNumber_sample (example_row ''190'')))"
  by (simp add: lon_time sample_400 parseCraterRow_diam_def sample_190 js_sub_180
      in_lon_range_def js_ge_Fin)




section \<open>Radius Scale\<close>

lemma round64_nonneg: "0 \<le> x \<Longrightarrow> 0 \<le> round64 x"
  using round64_mono [of 0 x] by simp

lemma lit_08: "1 / 2 \<le> round64 0.8 \<and> round64 0.8 \<le> 1"
  using round64_mono [of "1 / 2" "0.8"] round64_mono [of "0.8" 1]
  by (simp add: round64_half)

lemma fin64_08: "fin64 0.8 = Fin (round64 0.8)"
  using lit_08 overflow64_gt by (intro fin64_Fin) linarith+

lemma clamp_mono: "x \<le> y \<Longrightarrow> clamp x 1 8 \<le> clamp y 1 8"
  by (auto simp: clamp_def)

lemma clamp_bounds: "1 \<le> clamp x 1 8 \<and> clamp x 1 8 \<le> 8"
  by (auto simp: clamp_def)

lemma clamp_high: "8 \<le> x \<Longrightarrow> clamp x 1 8 = 8"
  by (auto simp: clamp_def)

lemma min_max_clamp: "Math_max (Fin 1) (Math_min (Fin 8) (Fin p)) = Fin (clamp p 1 8)"
  by (auto simp: Math_max_def Math_min_def clamp_def)

lemma min_max_PInf: "Math_max (Fin 1) (Math_min (Fin 8) PInf) = Fin 8"
  by (simp add: Math_max_def Math_min_def)

lemma scaled_clamp:
  assumes "0 \<le> s"
  shows "Math_max (Fin 1) (Math_min (Fin 8) (js_mul (Fin s) (Fin (round64 0.8))))
           = Fin (clamp (round64 (s * round64 0.8)) 1 8)"
proof (cases "s * round64 0.8" rule: fin64_cases)
  case 1
  then have "8 \<le> round64 (s * round64 0.8)" using overflow64_gt by linarith
  then show ?thesis using 1 by (simp add: min_max_PInf clamp_high)
next
  case 2
  have "0 \<le> round64 (s * round64 0.8)" using assms lit_08 by (intro round64_nonneg) simp
  with 2 show ?thesis using overflow64_gt by linarith
next
  case 3
  then show ?thesis by (simp add: min_max_clamp)
qed

lemma craterRadius_Fin:
  assumes "0 \<le> x"
  shows "craterRadius (Fin x) = Fin (clamp (round64 (round64 (sqrt x) * round64 0.8)) 1 8)"
proof -
  have s0: "0 \<le> round64 (sqrt x)" using assms by (intro round64_nonneg) simp
  show ?thesis
  proof (cases "sqrt x" rule: fin64_cases)
    case 1
    have "8 * 2 \<le> round64 (sqrt x)" using 1 overflow64_gt by linarith
    then have "8 \<le> round64 (sqrt x) * round64 0.8"
      using lit_08 mult_mono [of "8 * 2" "round64 (sqrt x)" "1 / 2" "round64 0.8"] by simp
    then have "round64 8 \<le> round64 (round64 (sqrt x) * round64 0.8)" by (rule round64_mono)
    then have "clamp (round64 (round64 (sqrt x) * round64 0.8)) 1 8 = 8"
      by (intro clamp_high) simp
    moreover have "craterRadius (Fin x) = Fin 8"
      using assms 1 lit_08 unfolding craterRadius_def fin64_08
      by (simp add: Let_def min_max_PInf)
    ultimately show ?thesis by simp
  next
    case 2
    with s0 show ?thesis using overflow64_gt by linarith
  next
    case 3
    then show ?thesis
      using assms scaled_clamp [OF s0] unfolding craterRadius_def fin64_08
      by (simp add: Let_def)
  qed
qed

lemma craterRadius_PInf: "craterRadius PInf = Fin 8"
  using lit_08 unfolding craterRadius_def fin64_08 by (simp add: Let_def min_max_PInf)

text \<open>
  Claim C3, as amended. \<open>craterRadius\<close> has a value for every number. For a diameter
  \<open>d <= 0\<close> that value is the clamped minimum 1 only at \<open>d = 0\<close>; for every \<open>d < 0\<close>
  it is NaN, since the square root of a negative number is NaN and \<open>Math.min\<close> and
  \<open>Math.max\<close> pass NaN on.
\<close>

theorem craterRadius_nonpositive:
  assumes "js_le d (Fin 0)"
  shows "craterRadius d = (if d = Fin 0 then Fin 1 else NaN)"
proof (cases d)
  case (Fin x)
  with assms have x: "x \<le> 0" by (simp add: js_le_Fin)
  show ?thesis
  proof (cases "x = 0")
    case True
    then show ?thesis using Fin craterRadius_Fin [of 0] by (simp add: clamp_def)
  next
    case False
    with x have "x < 0" by simp
    then show ?thesis using Fin
      by (simp add: craterRadius_def Let_def Math_max_def Math_min_def)
  qed
next
  case NInf
  then show ?thesis by (simp add: craterRadius_def Let_def Math_max_def Math_min_def)
next
  case NaN
  with assms show ?thesis by (simp add: js_le_def js_ge_NaN)
next
  case PInf
  with assms show ?thesis by (simp add: js_le_def js_ge_def)
qed

theorem craterRadius_nonpositive_witness:
  "js_le (Fin 0) (Fin 0) \<and> craterRadius (Fin 0) = Fin 1"
proof -
  have h: "js_le (Fin 0) (Fin 0)" by (simp add: js_le_Fin)
  from craterRadius_nonpositive [OF h] h show ?thesis by simp
qed

theorem craterRadius_nonpositive_counterexample:
  "js_le (Fin (- 1)) (Fin 0) \<and> craterRadius (Fin (- 1)) \<noteq> Fin 1"
  by (simp add: js_le_Fin craterRadius_def Let_def Math_max_def Math_min_def)

text \<open>
  Claim C5, as amended. For every diameter \<open>d >= 0\<close>, \<open>craterRadius d\<close> is
  \<open>clamp (sqrt d * 0.8) 1 8\<close>, the square root and the product being the binary64
  operations; it lies in [1, 8], and it is non-decreasing in \<open>d\<close> (plus infinity, whose
  radius is 8, included).
\<close>

theorem craterRadius_clamp:
  assumes "js_ge d (Fin 0)" and "js_le d d'"
  shows "(\<forall>x. d = Fin x \<longrightarrow>
            craterRadius d = Fin (clamp (round64 (round64 (sqrt x) * round64 0.8)) 1 8))
         \<and> js_ge (craterRadius d) (Fin 1) \<and> js_le (craterRadius d) (Fin 8)
         \<and> js_le (craterRadius d) (craterRadius d')"
proof (cases d)
  case (Fin x)
  with assms(1) have x: "0 \<le> x" by (simp add: js_ge_Fin)
  let ?f = "\<lambda>x. clamp (round64 (round64 (sqrt x) * round64 0.8)) 1 8"
  have r: "craterRadius d = Fin (?f x)"
    using Fin x by (simp add: craterRadius_Fin)
  have mono: "js_le (craterRadius d) (craterRadius d')"
  proof (cases d')
    case (Fin y)
    with assms(2) \<open>d = Fin x\<close> have xy: "x \<le> y" by (simp add: js_le_Fin)
    then have "round64 (sqrt x) \<le> round64 (sqrt y)" by (intro round64_mono) simp
    then have "round64 (sqrt x) * round64 0.8 \<le> round64 (sqrt y) * round64 0.8"
      using lit_08 by (intro mult_right_mono) simp_all
    then have "round64 (round64 (sqrt x) * round64 0.8)
                 \<le> round64 (round64 (sqrt y) * round64 0.8)" by (rule round64_mono)
    then have "?f x \<le> ?f y" by (rule clamp_mono)
    moreover have "craterRadius d' = Fin (?f y)"
      using Fin x xy by (simp add: craterRadius_Fin)
    ultimately show ?thesis by (simp add: r js_le_Fin)
  next
    case PInf
    then show ?thesis
      using clamp_bounds [of "round64 (round64 (sqrt x) * round64 0.8)"]
      by (simp add: r craterRadius_PInf js_le_Fin)
  next
    case NaN
    with assms(2) show ?thesis by (simp add: js_le_def js_ge_NaN)
  next
    case NInf
    with assms(2) \<open>d = Fin x\<close> show ?thesis by (simp add: js_le_def js_ge_def)
  qed
  show ?thesis
    using r mono clamp_bounds [of "round64 (round64 (sqrt x) * round64 0.8)"] Fin
    by (simp add: js_ge_Fin js_le_Fin)
next
  case PInf
  with assms(2) have "d' = PInf" by (cases d') (simp_all add: js_le_def js_ge_def)
  with PInf show ?thesis by (simp add: craterRadius_PInf js_ge_Fin js_le_Fin)
next
  case NaN
  with assms(1) show ?thesis by (simp add: js_ge_NaN)
next
  case NInf
  with assms(1) show ?thesis by (simp add: js_ge_def)
qed

theorem craterRadius_clamp_witness:
  "js_ge (Fin 16) (Fin 0) \<and> js_le (Fin 16) (Fin 25)
   \<and> craterRadius (Fin 16) = Fin (clamp (round64 (round64 (sqrt 16) * round64 0.8)) 1 8)
   \<and> js_ge (craterRadius (Fin 16)) (Fin 1) \<and> js_le (craterRadius (Fin 16)) (Fin 8)
   \<and> js_le (craterRadius (Fin 16)) (craterRadius (Fin 25))"
proof -
  have h1: "js_ge (Fin 16) (Fin 0)" by (simp add: js_ge_Fin)
  have h2: "js_le (Fin 16) (Fin 25)" by (simp add: js_le_Fin)
  from craterRadius_clamp [OF h1 h2] h1 h2 show ?thesis by blast
qed

theorem craterRadius_clamp_counterexample:
  "\<not> (js_ge (craterRadius (Fin (- 4))) (Fin 1) \<and> js_le (craterRadius (Fin (- 4))) (Fin 8))"
  by (simp add: craterRadius_def Let_def Math_max_def Math_min_def js_ge_NaN)

section \<open>Dataset Loader: the slider bound\<close>

lemma d3_max_snoc: "d3_max (vs @ [v]) = d3_max_step (d3_max vs) v"
  by (simp add: d3_max_def)

lemma spec_max_step: "spec_max r vs \<Longrightarrow> spec_max (d3_max_step r v) (vs @ [v])"
proof (cases r)
  case None
  assume "spec_max r vs"
  with None show ?thesis
    by (cases "v = NaN") (auto simp: spec_max_def d3_max_step_def js_ge_NaN js_ge_refl js_le_def)
next
  case (Some m)
  assume sm: "spec_max r vs"
  show ?thesis
  proof (cases "js_lt m v")
    case True
    then have "js_le m v" "v \<noteq> NaN" by (simp_all add: js_lt_imp_le js_lt_not_NaN)
    moreover have "\<forall>w \<in> set vs. w \<noteq> NaN \<longrightarrow> js_le w v"
      using sm Some \<open>js_le m v\<close> by (auto simp: spec_max_def js_le_def intro: js_ge_trans)
    ultimately show ?thesis using Some True
      by (auto simp: spec_max_def d3_max_step_def js_le_def js_ge_refl)
  next
    case False
    then show ?thesis using Some sm
      by (auto simp: spec_max_def d3_max_step_def not_js_lt_imp_ge)
  qed
qed

lemma d3_max_spec_max: "spec_max (d3_max vs) vs"
proof (induction vs rule: rev_induct)
  case Nil
  show ?case by (simp add: d3_max_def spec_max_def)
next
  case (snoc v vs)
  then show ?case by (simp add: d3_max_snoc spec_max_step)
qed

lemma spec_max_unique: "spec_max r vs \<Longrightarrow> spec_max r' vs \<Longrightarrow> r = r'"
  by (cases r; cases r') (auto simp: spec_max_def intro: js_le_antisym)

text \<open>
  Claim C7, as amended. Let the maximum be taken over the values of the filter field
  (creation time, resp. diameter) that are numbers, across the survived sequence followed
  by the erased one. When that maximum exists and is not 0, the slider bound is its
  ceiling. The bound is the fallback (100, resp. 50) when no value is a number, which
  includes the empty concatenation, and also when the maximum is 0.
\<close>

theorem roundedMax_cases:
  assumes "spec_max r (map (\<lambda>d. created (h d)) (survMare @ erasedMare))"
    and "spec_max r' (map (\<lambda>d. diameter (h d)) (survMare @ erasedMare))"
  shows "roundedMax_time h survMare erasedMare =
           (case r of None \<Rightarrow> Fin 100 | Some m \<Rightarrow> if m = Fin 0 then Fin 100 else Math_ceil m)
         \<and> roundedMax_diam h survMare erasedMare =
           (case r' of None \<Rightarrow> Fin 50 | Some m \<Rightarrow> if m = Fin 0 then Fin 50 else Math_ceil m)"
proof -
  have 1: "d3_max (map (\<lambda>d. created (h d)) (survMare @ erasedMare)) = r"
    using assms(1) d3_max_spec_max by (rule spec_max_unique [rotated])
  have 2: "d3_max (map (\<lambda>d. diameter (h d)) (survMare @ erasedMare)) = r'"
    using assms(2) d3_max_spec_max by (rule spec_max_unique [rotated])
  have nn: "\<And>m. r = Some m \<Longrightarrow> m \<noteq> NaN" "\<And>m. r' = Some m \<Longrightarrow> m \<noteq> NaN"
    using assms by (auto simp: spec_max_def)
  show ?thesis
    unfolding roundedMax_time_def roundedMax_diam_def Let_def 1 2
    using nn by (auto simp: js_or_def truthy_def split: option.splits)
qed

theorem roundedMax_cases_witness:
  "spec_max (Some (Fin 50)) (map (\<lambda>d. created (example_heap d)) ([0, 1, 2] @ [3, 4]))
   \<and> spec_max (Some (Fin 16)) (map (\<lambda>d. diameter (example_heap d)) ([0, 1, 2] @ [3, 4]))
   \<and> roundedMax_time example_heap [0, 1, 2] [3, 4] = Fin 50
   \<and> roundedMax_diam example_heap [0, 1, 2] [3, 4] = Fin 16"
proof -
  have h1: "spec_max (Some (Fin 50)) (map (\<lambda>d. created (example_heap d)) ([0, 1, 2] @ [3, 4]))"
    by (simp add: spec_max_def example_heap_def mk_crater_def js_le_Fin)
  have h2: "spec_max (Some (Fin 16)) (map (\<lambda>d. diameter (example_heap d)) ([0, 1, 2] @ [3, 4]))"
    by (simp add: spec_max_def example_heap_def mk_crater_def js_le_Fin)
  from roundedMax_cases [OF h1 h2] h1 h2 show ?thesis by simp
qed

text \<open>
  The claim as stated fails when the maximum is 0: one survived crater created at
  timestep 0 and of diameter 0 gives the fallbacks 100 and 50, not the ceiling 0.
\<close>

theorem roundedMax_cases_counterexample:
  "created (zero_heap 0) = Fin 0 \<and> diameter (zero_heap 0) = Fin 0
   \<and> Math_ceil (Fin 0) = Fin 0
   \<and> roundedMax_time zero_heap [0] [] = Fin 100
   \<and> roundedMax_diam zero_heap [0] [] = Fin 50"
  by (simp add: roundedMax_time_def roundedMax_diam_def d3_max_def d3_max_step_def
      zero_heap_def mk_crater_def js_or_def truthy_def js_ge_def)

section \<open>Update/Redraw Cycle\<close>

lemma length_filter_ge_mono:
  assumes "js_le t t'"
  shows "length (filter (\<lambda>d. js_ge (f d) t') xs) \<le> length (filter (\<lambda>d. js_ge (f d) t) xs)"
proof -
  have "filter (\<lambda>d. js_ge (f d) t') xs =
          filter (\<lambda>d. js_ge (f d) t') (filter (\<lambda>d. js_ge (f d) t) xs)"
    using assms by (auto simp: js_le_def intro: js_ge_trans filter_cong)
  then show ?thesis by (metis length_filter_le)
qed

lemma all_controls_sel:
  "showSurvivedInput (all_controls ss se v) = Some \<lparr> checked = ss \<rparr>"
  "showErasedInput (all_controls ss se v) = Some \<lparr> checked = se \<rparr>"
  "slider (all_controls ss se v) = Some \<lparr> slider_max = ''100'', slider_value = v \<rparr>"
  by (simp_all add: all_controls_def)

lemma threshold_sample:
  "unary_plus toNumber_sample (Some ''0'') = Fin 0"
  "unary_plus toNumber_sample (Some ''5'') = Fin 5"
  "unary_plus toNumber_sample (Some ''10'') = Fin 10"
  by (simp_all add: unary_plus_def toNumber_sample_def)

lemma filter_upt_tail:
  assumes "\<not> P 0" "\<And>d. 0 < d \<Longrightarrow> P d"
  shows "filter P [0..<Suc n] = [Suc 0..<Suc n]"
proof -
  have "[0..<Suc n] = 0 # [Suc 0..<Suc n]" by (simp add: upt_rec)
  moreover have "filter P [Suc 0..<Suc n] = [Suc 0..<Suc n]"
    using assms(2) by (intro filter_True) auto
  ultimately show ?thesis using assms(1) by simp
qed

text \<open>
  Below the engine's argument limit the time-filter \<open>update\<close> returns the filtered
  sequence the specification describes: the matching survived records if shown, then
  the matching erased records if shown.
\<close>

lemma update_time_within_limit:
  assumes "showSurvivedInput c = Some ss" "showErasedInput c = Some se" "slider c = Some sl"
    and "t = unary_plus toNum (Some (slider_value sl))"
    and "checked ss \<Longrightarrow> length (filter (\<lambda>d. js_ge (created (h d)) t) S) \<le> argLimit"
    and "checked se \<Longrightarrow> length (filter (\<lambda>d. js_ge (created (h d)) t) E) \<le> argLimit"
  shows "\<exists>rt. update_time argLimit toNum h c S E = Inr rt
           \<and> filtered rt = (if checked ss then filter (\<lambda>d. js_ge (created (h d)) t) S else [])
                          @ (if checked se then filter (\<lambda>d. js_ge (created (h d)) t) E else [])
           \<and> circles rt = draw h S (filtered rt)"
  using assms by (auto simp: update_time_def push_spread_def Let_def)

text \<open>
  Beyond it the redraw is abandoned: with more matching records in a shown category than
  one call takes as arguments, \<open>update\<close> throws a RangeError.
\<close>

lemma update_time_beyond_limit:
  assumes "showSurvivedInput c = Some ss" "showErasedInput c = Some se" "slider c = Some sl"
    and "t = unary_plus toNum (Some (slider_value sl))"
    and "checked ss \<and> argLimit < length (filter (\<lambda>d. js_ge (created (h d)) t) S)
       \<or> checked se \<and> argLimit < length (filter (\<lambda>d. js_ge (created (h d)) t) E)"
  shows "update_time argLimit toNum h c S E = Inl RangeError"
  using assms by (auto simp: update_time_def push_spread_def Let_def)

text \<open>
  The diameter-filter \<open>update\<close> builds the sequence for every pair of datasets and every
  combination of controls; its count is monotone in the threshold, and turning a checkbox
  off removes that category's matching records and nothing else.
\<close>

lemma update_diam_sequence:
  "\<exists>rd. update_diam toNum toStr h c S E = Inr rd
     \<and> filtered rd =
         (if (case showSurvivedInput c of Some ss \<Rightarrow> checked ss | None \<Rightarrow> True)
          then filter (\<lambda>d. js_ge (diameter (h d))
                 (case slider c of
                    Some sl \<Rightarrow> unary_plus toNum (Some (slider_value sl)) | None \<Rightarrow> Fin 0)) S
          else [])
       @ (if (case showErasedInput c of Some se \<Rightarrow> checked se | None \<Rightarrow> True)
          then filter (\<lambda>d. js_ge (diameter (h d))
                 (case slider c of
                    Some sl \<Rightarrow> unary_plus toNum (Some (slider_value sl)) | None \<Rightarrow> Fin 0)) E
          else [])
     \<and> circles rd = draw h S (filtered rd)
     \<and> map datum (circles rd) = filtered rd"
  by (simp add: update_diam_def Let_def draw_def comp_def)

lemma update_diam_count_monotone:
  assumes "slider c = Some sl"
    and "js_le (unary_plus toNum (Some (slider_value sl))) (unary_plus toNum (Some v))"
  shows "\<exists>rd rd'. update_diam toNum toStr h c S E = Inr rd
         \<and> update_diam toNum toStr h (drag_slider v c) S E = Inr rd'
         \<and> length (filtered rd') \<le> length (filtered rd)"
  using assms(1) length_filter_ge_mono [OF assms(2), of "\<lambda>d. diameter (h d)" S]
    length_filter_ge_mono [OF assms(2), of "\<lambda>d. diameter (h d)" E]
  by (simp add: update_diam_def Let_def drag_slider_def add_mono)

lemma update_diam_toggle_off:
  assumes "showSurvivedInput c = Some ss" "showErasedInput c = Some se" "slider c = Some sl"
    and "t = unary_plus toNum (Some (slider_value sl))"
  shows "\<exists>rd rd' rd''.
           update_diam toNum toStr h c S E = Inr rd
         \<and> update_diam toNum toStr h (toggle_survived c) S E = Inr rd'
         \<and> update_diam toNum toStr h (toggle_erased c) S E = Inr rd''
         \<and> (checked ss \<longrightarrow>
              filtered rd = filter (\<lambda>d. js_ge (diameter (h d)) t) S @ filtered rd'
            \<and> filtered rd' = (if checked se then filter (\<lambda>d. js_ge (diameter (h d)) t) E else []))
         \<and> (checked se \<longrightarrow>
              filtered rd = filtered rd'' @ filter (\<lambda>d. js_ge (diameter (h d)) t) E
            \<and> filtered rd'' = (if checked ss then filter (\<lambda>d. js_ge (diameter (h d)) t) S else []))"
  using assms by (simp add: update_diam_def Let_def toggle_survived_def toggle_erased_def)

text \<open>
  Claim C4, which the time-filter variant breaks. With one record more in the survived
  array than the engine takes as arguments of one call, all of them matching, \<open>update\<close>
  of src/script.js throws a RangeError in \<open>filtered.push(...)\<close> and builds no filtered
  sequence; the diameter-filter variant, which uses \<open>concat\<close>, builds it on the same
  data. This holds for every argument limit.
\<close>

theorem update_time_spread_overflow:
  "update_time argLimit toNumber_sample zero_heap (all_controls True True ''0'')
     [0..<Suc argLimit] [] = Inl RangeError
   \<and> (\<exists>rd. update_diam toNumber_sample toString_sample zero_heap (all_controls True True ''0'')
             [0..<Suc argLimit] [] = Inr rd
          \<and> filtered rd = [0..<Suc argLimit])"
  by (simp add: update_time_def update_diam_def push_spread_def Let_def all_controls_def
      threshold_sample zero_heap_def mk_crater_def js_ge_Fin del: upt_Suc)

text \<open>
  Claim C8, which the time-filter variant breaks, by the same spread call as in C4. With
  one record more than the argument limit, the record at 0 created at timestep 5 and the
  others at timestep 16, the redraw at threshold 0 throws a RangeError and produces no
  records, while the redraw at the raised threshold 10 produces as many records as the
  limit: raising the threshold has increased what is displayed.
\<close>

theorem update_count_spread_overflow:
  "js_le (unary_plus toNumber_sample (Some ''0'')) (unary_plus toNumber_sample (Some ''10''))
   \<and> update_time argLimit toNumber_sample step_heap (all_controls True True ''0'')
       [0..<Suc argLimit] [] = Inl RangeError
   \<and> (\<exists>rd. update_time argLimit toNumber_sample step_heap
             (drag_slider ''10'' (all_controls True True ''0'')) [0..<Suc argLimit] [] = Inr rd
          \<and> length (filtered rd) = argLimit)"
proof -
  have a: "filter (\<lambda>d. js_ge (created (step_heap d)) (Fin 0)) [0..<Suc argLimit]
             = [0..<Suc argLimit]"
    by (intro filter_True) (simp add: step_heap_def mk_crater_def js_ge_Fin)
  have b: "filter (\<lambda>d. js_ge (created (step_heap d)) (Fin 10)) [0..<Suc argLimit]
             = [Suc 0..<Suc argLimit]"
    by (intro filter_upt_tail) (simp_all add: step_heap_def mk_crater_def js_ge_Fin)
  show ?thesis
    by (simp add: update_time_def push_spread_def Let_def all_controls_def drag_slider_def
        threshold_sample a b js_le_Fin del: upt_Suc)
qed

text \<open>
  Claim C9, which the time-filter variant breaks, by the same spread call as in C4. With
  both categories shown and one survived record more than a positive argument limit, all
  matching, the redraw throws a RangeError, so there is no filtered sequence from which
  turning the survived checkbox off could remove records; with the checkbox off the
  redraw returns the erased record.
\<close>

theorem toggle_spread_overflow:
  "update_time (Suc n) toNumber_sample zero_heap (all_controls True True ''0'')
     [0..<Suc (Suc n)] [Suc (Suc n)] = Inl RangeError
   \<and> (\<exists>rd. update_time (Suc n) toNumber_sample zero_heap
             (toggle_survived (all_controls True True ''0'')) [0..<Suc (Suc n)] [Suc (Suc n)]
               = Inr rd
          \<and> filtered rd = [Suc (Suc n)])"
  by (simp add: update_time_def push_spread_def Let_def all_controls_def toggle_survived_def
      threshold_sample zero_heap_def mk_crater_def js_ge_Fin del: upt_Suc)

text \<open>
  Claim C6. Every circle that \<open>update\<close> draws is bound to a record of the filtered
  sequence, and its class is "crater-survived" if and only if that record, as an object,
  is an element of the survived array; otherwise it is "crater-erased". So a record of
  the survived array is drawn as survived also when an object with the same field values
  is in the erased array. Both variants.
\<close>

theorem category_class_membership:
  assumes "update_time argLimit toNum h c S E = Inr rd
         \<or> update_diam toNum toStr h c S E = Inr rd"
    and "m \<in> set (circles rd)"
  shows "(attr_class m = ''crater-survived'') = (datum m \<in> set S)
         \<and> (attr_class m = ''crater-erased'') = (datum m \<notin> set S)
         \<and> datum m \<in> set (filtered rd)"
proof -
  have "circles rd = draw h S (filtered rd)"
    using assms(1)
    by (auto simp: update_time_def update_diam_def push_spread_def Let_def
        split: option.splits if_splits sum.splits)
  with assms(2) show ?thesis by (auto simp: draw_def split: if_splits)
qed

theorem category_class_membership_witness:
  "example_heap 0 = example_heap 3
   \<and> (\<exists>rd. update_time 65536 toNumber_sample example_heap (all_controls True True ''0'')
              [0, 1, 2] [3, 4] = Inr rd
          \<and> datum (circles rd ! 0) = 0 \<and> attr_class (circles rd ! 0) = ''crater-survived''
          \<and> datum (circles rd ! 3) = 3 \<and> attr_class (circles rd ! 3) = ''crater-erased'')"
proof -
  let ?rd = "\<lparr> dom = all_controls True True ''0'', filtered = [0, 1, 2, 3, 4],
               circles = draw example_heap [0, 1, 2] [0, 1, 2, 3, 4] \<rparr>"
  have u: "update_time 65536 toNumber_sample example_heap (all_controls True True ''0'')
             [0, 1, 2] [3, 4] = Inr ?rd"
    by (simp add: update_time_def push_spread_def all_controls_def Let_def threshold_sample
        example_heap_def mk_crater_def js_ge_Fin)
  have len: "length (circles ?rd) = 5" by (simp add: draw_def)
  have m0: "circles ?rd ! 0 \<in> set (circles ?rd)" and m3: "circles ?rd ! 3 \<in> set (circles ?rd)"
    using len by (simp_all only: nth_mem)
  have d0: "datum (circles ?rd ! 0) = 0" and d3: "datum (circles ?rd ! 3) = 3"
    by (simp_all add: draw_def)
  from category_class_membership [OF disjI1 [OF u] m0] d0
  have c0: "attr_class (circles ?rd ! 0) = ''crater-survived''" by simp
  from category_class_membership [OF disjI1 [OF u] m3] d3
  have c3: "attr_class (circles ?rd ! 3) = ''crater-erased''" by simp
  have same: "example_heap 0 = example_heap 3" by (simp add: example_heap_def)
  from same u d0 c0 d3 c3 show ?thesis by blast
qed

text \<open>
  Claim C2, which the time-filter variant breaks. On a page with none of the optional
  controls, \<open>update\<close> of src/script.js reads \<open>checked\<close> of \<open>null\<close> and throws a
  TypeError, and \<open>createCraterMap\<close> throws before it gets to the first redraw. The
  diameter-filter variant returns for every combination of absent controls: an absent
  checkbox counts as checked, an absent slider as threshold zero, an absent label is left
  alone.
\<close>

theorem missing_controls:
  "update_time argLimit toNum h no_controls S E = Inl TypeError
   \<and> createCraterMap_time argLimit toNum h no_controls S E = Inl TypeError
   \<and> (\<exists>rd. update_diam toNum toStr h c S E = Inr rd
          \<and> filtered rd =
               (if (case showSurvivedInput c of Some ss \<Rightarrow> checked ss | None \<Rightarrow> True)
                then filter (\<lambda>d. js_ge (diameter (h d))
                       (case slider c of
                          Some sl \<Rightarrow> unary_plus toNum (Some (slider_value sl))
                        | None \<Rightarrow> Fin 0)) S
                else [])
             @ (if (case showErasedInput c of Some se \<Rightarrow> checked se | None \<Rightarrow> True)
                then filter (\<lambda>d. js_ge (diameter (h d))
                       (case slider c of
                          Some sl \<Rightarrow> unary_plus toNum (Some (slider_value sl))
                        | None \<Rightarrow> Fin 0)) E
                else [])
          \<and> circles rd = draw h S (filtered rd)
          \<and> dom rd =
               (case sliderLabel c of
                  None \<Rightarrow> c
                | Some lb \<Rightarrow> c\<lparr>sliderLabel := Some (lb\<lparr>textContent :=
                    toStr (case slider c of
                             Some sl \<Rightarrow> unary_plus toNum (Some (slider_value sl))
                           | None \<Rightarrow> Fin 0)
                      @ '' km''\<rparr>)\<rparr>))"
  by (simp add: update_time_def createCraterMap_time_def update_diam_def no_controls_def Let_def)


end
